theory Spec2Isabelle
  imports
    Main
    "HOL-Library.Word"
    "HOL-Library.Sublist"
    "HOL-Library.List_Lexorder"
    "HOL-Library.Product_Lexorder"
    "HOL-Library.Multiset"
begin

section \<open>JavaScript strings\<close>

text \<open>
  A JavaScript string is a finite sequence of 16-bit code units. The string methods the
  sources call are modelled on that representation. \<open>js\<close> embeds an ASCII literal.
\<close>

type_synonym jsstring = "16 word list"

definition js :: "string \<Rightarrow> jsstring" where
  "js s = map of_char s"

text \<open>
  \<open>String.prototype.trim\<close> and the regular expression class \<open>\s\<close> use the same set of
  code units: ECMAScript's WhiteSpace and LineTerminator productions.
\<close>

definition isWhiteSpace :: "16 word \<Rightarrow> bool" where
  "isWhiteSpace c \<longleftrightarrow>
     c = 0x09 \<or> c = 0x0A \<or> c = 0x0B \<or> c = 0x0C \<or> c = 0x0D \<or> c = 0x20 \<or> c = 0xA0
     \<or> c = 0x1680 \<or> (0x2000 \<le> c \<and> c \<le> 0x200A) \<or> c = 0x2028 \<or> c = 0x2029
     \<or> c = 0x202F \<or> c = 0x205F \<or> c = 0x3000 \<or> c = 0xFEFF"

text \<open>
  Case conversion. The Unicode tables behind \<open>toLowerCase\<close> and \<open>toUpperCase\<close> belong to
  the JavaScript engine, not to the repository. The model carries them for Basic Latin
  and the Latin-1 Supplement (U+0000 to U+00FF, with the sharp s U+00DF, whose upper
  case is the two code units \<open>SS\<close>), for the three code units that the conversions of
  those lead to (U+0178, U+039C, U+03BC), and for the dotless i U+0131, whose upper case
  is \<open>I\<close>. Every other code unit is passed through, so the two functions are the
  engine's on strings of these code units and not beyond. Of the theorems below that
  hold for every string, those on the filters and on the ranking use no property of
  case conversion; the one on a failed intent extraction uses only that lower-casing
  turns white space into white space and any other code unit into code units that are
  not white space, which the engine's conversion does as well; the one on the
  normalizer takes the two conversions as parameters.
\<close>

definition lowerUnit :: "16 word \<Rightarrow> 16 word" where
  "lowerUnit c =
     (if (0x41 \<le> c \<and> c \<le> 0x5A) \<or> (0xC0 \<le> c \<and> c \<le> 0xDE \<and> c \<noteq> 0xD7) then c + 0x20
      else if c = 0x178 then 0xFF
      else if c = 0x39C then 0x3BC
      else c)"

definition upperUnit :: "16 word \<Rightarrow> jsstring" where
  "upperUnit c =
     (if (0x61 \<le> c \<and> c \<le> 0x7A) \<or> (0xE0 \<le> c \<and> c \<le> 0xFE \<and> c \<noteq> 0xF7) then [c - 0x20]
      else if c = 0xDF then [0x53, 0x53]
      else if c = 0xFF then [0x178]
      else if c = 0xB5 \<or> c = 0x3BC then [0x39C]
      else if c = 0x131 then [0x49]
      else [c])"

definition toLowerCase :: "jsstring \<Rightarrow> jsstring" where
  "toLowerCase s = map lowerUnit s"

definition toUpperCase :: "jsstring \<Rightarrow> jsstring" where
  "toUpperCase s = concat (map upperUnit s)"

definition trim :: "jsstring \<Rightarrow> jsstring" where
  "trim s = rev (dropWhile isWhiteSpace (rev (dropWhile isWhiteSpace s)))"

text \<open>\<open>s.includes(w)\<close>: \<open>w\<close> occurs in \<open>s\<close> as a contiguous run of code units.\<close>

definition includes_str :: "jsstring \<Rightarrow> jsstring \<Rightarrow> bool" where
  "includes_str s w = sublist w s"

definition charAt :: "jsstring \<Rightarrow> nat \<Rightarrow> jsstring" where
  "charAt s n = take 1 (drop n s)"

definition slice_str :: "jsstring \<Rightarrow> nat \<Rightarrow> jsstring" where
  "slice_str s n = drop n s"

fun join :: "jsstring list \<Rightarrow> jsstring \<Rightarrow> jsstring" where
  "join [] sep = []"
| "join [x] sep = x"
| "join (x # y # ys) sep = x @ sep @ join (y # ys) sep"

text \<open>
  \<open>s.split(/\s+/)\<close>: the pieces of \<open>s\<close> between maximal runs of white space. A string
  that starts (ends) with white space yields an empty first (last) piece, and the empty
  string yields one empty piece. (The result is never the empty list, so the first
  branch of the inner case distinction is never taken.)
\<close>

function split_ws :: "jsstring \<Rightarrow> jsstring list" where
  "split_ws [] = [[]]"
| "split_ws (c # cs) =
     (if isWhiteSpace c then [] # split_ws (dropWhile isWhiteSpace cs)
      else (case split_ws cs of [] \<Rightarrow> [[c]] | w # ws \<Rightarrow> (c # w) # ws))"
  by pat_completeness auto
termination
  by (relation "measure length") (auto simp: le_imp_less_Suc length_dropWhile_le)

text \<open>\<open>a || b\<close> on numbers: \<open>0\<close> is the falsy number.\<close>

definition or_num :: "int \<Rightarrow> int \<Rightarrow> int" where
  "or_num a b = (if a = 0 then b else a)"

text \<open>
  \<open>n + 1\<close> in double precision, for an integer \<open>n \<ge> 0\<close> that is a double. Below
  \<open>2^53\<close> the sum is exact. From \<open>2^53\<close> to \<open>2^54\<close> the doubles are the even
  integers and \<open>n + 1\<close> lies half way between two of them: it is rounded to the one
  with the even significand, which is \<open>n\<close> when \<open>n\<close> is a multiple of four and
  \<open>n + 2\<close> otherwise. From \<open>2^54\<close> on the doubles are at least four apart and the
  sum is rounded back to \<open>n\<close>.
\<close>

definition add_one :: "int \<Rightarrow> int" where
  "add_one n =
     (if n < 2 ^ 53 then n + 1
      else if n < 2 ^ 54 then (if n mod 4 = 0 then n else n + 2)
      else n)"


section \<open>Data model (types.ts, geminiService.ts)\<close>

datatype Platform = INSTAGRAM | YOUTUBE | UNKNOWN

record DebugMetadata =
  ogTitle :: jsstring
  ogDescription :: jsstring
  ogImage :: jsstring
  authorName :: jsstring
  platformHeaders :: "(jsstring \<times> jsstring) list"
  rawResponse :: jsstring

text \<open>
  Numbers are modelled as integers: timestamps, sequence numbers and engagement scores
  are integer-valued doubles in this program. The operations on them are exact on such
  values (\<open>Math.max\<close>, comparison, the sign of a difference in a comparator), except the
  addition in \<open>save\<close>, whose rounding \<open>add_one\<close> writes out. Optional fields are
  options.
\<close>

record AIEnrichmentResponse =
  tags :: "jsstring list"
  topic :: jsstring
  summary :: jsstring
  suggestedTitle :: "jsstring option"
  engagementScore :: "int option"

record SearchIntentResponse =
  keywords' :: "jsstring list"
  topics :: "jsstring list"
  intent :: jsstring
  sortBy :: "jsstring option"
  limit :: "int option"

record SavedItem =
  id' :: jsstring
  url :: jsstring
  title :: jsstring
  description :: jsstring
  thumbnail :: jsstring
  creator :: jsstring
  platform :: Platform
  tags :: "jsstring list"
  topic :: jsstring
  summary :: jsstring
  dateAdded :: int
  sequenceNumber :: int
  engagementScore :: int
  debugInfo :: "DebugMetadata option"
  isEnriching :: "bool option"


section \<open>Topic normalizer (App.tsx, normalizeTopic)\<close>

definition normalizeTopic :: "jsstring \<Rightarrow> jsstring" where
  "normalizeTopic t0 =
    (let t = trim (toLowerCase t0) in
     if includes_str t (js ''finance'') \<or> includes_str t (js ''invest'')
        \<or> includes_str t (js ''money'') \<or> includes_str t (js ''trading'') then js ''Finance''
     else if includes_str t (js ''gym'') \<or> includes_str t (js ''workout'')
        \<or> includes_str t (js ''fitness'') \<or> includes_str t (js ''exercise'') then js ''Fitness''
     else if includes_str t (js ''recipe'') \<or> includes_str t (js ''cooking'')
        \<or> includes_str t (js ''food'') \<or> includes_str t (js ''baking'')
        \<or> includes_str t (js ''meal'') then js ''Food''
     else if includes_str t (js ''tech'') \<or> includes_str t (js ''software'')
        \<or> includes_str t (js ''programming'') \<or> includes_str t (js ''ai'')
        \<or> includes_str t (js ''coding'') then js ''Tech''
     else if includes_str t (js ''travel'') \<or> includes_str t (js ''vacation'')
        \<or> includes_str t (js ''trip'') \<or> includes_str t (js ''place'') then js ''Travel''
     else if includes_str t (js ''fashion'') \<or> includes_str t (js ''style'')
        \<or> includes_str t (js ''outfit'') then js ''Fashion''
     else toUpperCase (charAt t0 0) @ toLowerCase (slice_str t0 1))"


text \<open>
  The same function with the engine's two case conversions as parameters;
  \<open>normalizeTopic\<close> is its instance at the conversions of the model.
\<close>

definition normalizeTopicWith ::
  "(jsstring \<Rightarrow> jsstring) \<Rightarrow> (jsstring \<Rightarrow> jsstring) \<Rightarrow> jsstring \<Rightarrow> jsstring" where
  "normalizeTopicWith lc uc t0 =
    (let t = trim (lc t0) in
     if includes_str t (js ''finance'') \<or> includes_str t (js ''invest'')
        \<or> includes_str t (js ''money'') \<or> includes_str t (js ''trading'') then js ''Finance''
     else if includes_str t (js ''gym'') \<or> includes_str t (js ''workout'')
        \<or> includes_str t (js ''fitness'') \<or> includes_str t (js ''exercise'') then js ''Fitness''
     else if includes_str t (js ''recipe'') \<or> includes_str t (js ''cooking'')
        \<or> includes_str t (js ''food'') \<or> includes_str t (js ''baking'')
        \<or> includes_str t (js ''meal'') then js ''Food''
     else if includes_str t (js ''tech'') \<or> includes_str t (js ''software'')
        \<or> includes_str t (js ''programming'') \<or> includes_str t (js ''ai'')
        \<or> includes_str t (js ''coding'') then js ''Tech''
     else if includes_str t (js ''travel'') \<or> includes_str t (js ''vacation'')
        \<or> includes_str t (js ''trip'') \<or> includes_str t (js ''place'') then js ''Travel''
     else if includes_str t (js ''fashion'') \<or> includes_str t (js ''style'')
        \<or> includes_str t (js ''outfit'') then js ''Fashion''
     else uc (charAt t0 0) @ lc (slice_str t0 1))"


section \<open>Search and ranking pipeline (App.tsx, filteredItems)\<close>

subsection \<open>1. Label/Filter System\<close>

definition labelFilter :: "jsstring \<Rightarrow> SavedItem list \<Rightarrow> SavedItem list" where
  "labelFilter activeFilter result =
    (if activeFilter \<noteq> js ''all'' then
       filter (\<lambda>item.
         let normItemTopic = toLowerCase (normalizeTopic (SavedItem.topic item)) in
         normItemTopic = toLowerCase activeFilter \<or>
         list_ex (\<lambda>t. toLowerCase (normalizeTopic t) = toLowerCase activeFilter)
           (SavedItem.tags item)) result
     else result)"

subsection \<open>2. Exact Keyword Matching and Intent Filtering\<close>

definition queryWords :: "jsstring \<Rightarrow> jsstring list" where
  "queryWords query = filter (\<lambda>w. length w > 0) (split_ws query)"

definition searchableText :: "SavedItem \<Rightarrow> jsstring" where
  "searchableText item =
     toLowerCase (title item @ js '' '' @ SavedItem.topic item @ js '' ''
       @ SavedItem.summary item @ js '' '' @ creator item @ js '' ''
       @ join (SavedItem.tags item) (js '' ''))"

definition matchesAllWords :: "jsstring list \<Rightarrow> SavedItem \<Rightarrow> bool" where
  "matchesAllWords ws item = list_all (\<lambda>word. includes_str (searchableText item) word) ws"

definition matchesAiKeyword :: "jsstring list \<Rightarrow> SavedItem \<Rightarrow> bool" where
  "matchesAiKeyword aiKeywords item =
     list_ex (\<lambda>k. includes_str (searchableText item) (toLowerCase k)) aiKeywords"

definition matchesAiTopic :: "jsstring list \<Rightarrow> SavedItem \<Rightarrow> bool" where
  "matchesAiTopic aiTopics item =
     list_ex (\<lambda>t.
        includes_str (toLowerCase (normalizeTopic (SavedItem.topic item))) (toLowerCase t) \<or>
        toLowerCase (normalizeTopic t) = toLowerCase (normalizeTopic (SavedItem.topic item)))
       aiTopics"

text \<open>The callback of the second \<open>result.filter\<close>.\<close>

definition keepItem :: "jsstring list \<Rightarrow> SearchIntentResponse option \<Rightarrow> SavedItem \<Rightarrow> bool" where
  "keepItem ws searchIntent item =
    (if matchesAllWords ws item then True
     else (case searchIntent of
             Some si \<Rightarrow> matchesAiKeyword (keywords' si) item \<or> matchesAiTopic (topics si) item
           | None \<Rightarrow> False))"

definition intentFilter ::
  "jsstring \<Rightarrow> SearchIntentResponse option \<Rightarrow> SavedItem list \<Rightarrow> SavedItem list" where
  "intentFilter searchQuery searchIntent result =
    (let query = trim (toLowerCase searchQuery) in
     if query \<noteq> [] then filter (keepItem (queryWords query) searchIntent) result
     else result)"

subsection \<open>3. Metadata-Driven Ranking\<close>

text \<open>
  \<open>Array.prototype.sort\<close> with a comparator is stable. For a comparator that is
  consistent, as every comparator below is (a difference of integer keys, with a second
  key on ties), the result is the one stable arrangement, computed here by insertion:
  \<open>x\<close> goes before the first \<open>y\<close> with \<open>cmp x y \<le> 0\<close>.
\<close>

fun insertBy :: "('a \<Rightarrow> 'a \<Rightarrow> int) \<Rightarrow> 'a \<Rightarrow> 'a list \<Rightarrow> 'a list" where
  "insertBy cmp x [] = [x]"
| "insertBy cmp x (y # ys) = (if cmp x y \<le> 0 then x # y # ys else y # insertBy cmp x ys)"

definition sort_js :: "('a \<Rightarrow> 'a \<Rightarrow> int) \<Rightarrow> 'a list \<Rightarrow> 'a list" where
  "sort_js cmp xs = foldr (insertBy cmp) xs []"

definition sortModeOf :: "SearchIntentResponse option \<Rightarrow> jsstring" where
  "sortModeOf searchIntent =
    (case searchIntent of
       None \<Rightarrow> js ''date-desc''
     | Some si \<Rightarrow> (case sortBy si of
                    None \<Rightarrow> js ''date-desc''
                  | Some m \<Rightarrow> if m = [] then js ''date-desc'' else m))"

definition firstCompare :: "jsstring \<Rightarrow> SavedItem \<Rightarrow> SavedItem \<Rightarrow> int" where
  "firstCompare sortMode a b =
    (if sortMode = js ''engagement-desc'' then
       or_num (SavedItem.engagementScore b) 0 - or_num (SavedItem.engagementScore a) 0
     else if sortMode = js ''sequence-desc'' then sequenceNumber b - sequenceNumber a
     else if sortMode = js ''date-asc'' then dateAdded a - dateAdded b
     else dateAdded b - dateAdded a)"

definition stabilityCompare :: "jsstring \<Rightarrow> SavedItem \<Rightarrow> SavedItem \<Rightarrow> int" where
  "stabilityCompare sortMode a b =
    (let primary =
       (if sortMode = js ''engagement-desc''
        then or_num (SavedItem.engagementScore b) 0 - or_num (SavedItem.engagementScore a) 0
        else sequenceNumber b - sequenceNumber a)
     in if primary = 0 then dateAdded b - dateAdded a else primary)"

definition ranking :: "jsstring \<Rightarrow> SavedItem list \<Rightarrow> SavedItem list" where
  "ranking sortMode result =
    (let sorted1 = sort_js (firstCompare sortMode) result in
     if sortMode \<noteq> js ''date-asc'' \<and> sortMode \<noteq> js ''date-desc''
     then sort_js (stabilityCompare sortMode) sorted1
     else sorted1)"

subsection \<open>4. Content Limit\<close>

definition contentLimit :: "SearchIntentResponse option \<Rightarrow> SavedItem list \<Rightarrow> SavedItem list" where
  "contentLimit searchIntent result =
    (case searchIntent of
       None \<Rightarrow> result
     | Some si \<Rightarrow> (case limit si of
                    None \<Rightarrow> result
                  | Some n \<Rightarrow> if n \<noteq> 0 \<and> n > 0 then take (nat n) result else result))"

definition filteredItems ::
  "SavedItem list \<Rightarrow> jsstring \<Rightarrow> jsstring \<Rightarrow> SearchIntentResponse option \<Rightarrow> SavedItem list" where
  "filteredItems items searchQuery activeFilter searchIntent =
     contentLimit searchIntent
       (ranking (sortModeOf searchIntent)
          (intentFilter searchQuery searchIntent (labelFilter activeFilter items)))"

subsection \<open>Intent extraction (geminiService.ts, getSearchIntent; App.tsx, effect on searchQuery)\<close>

text \<open>
  The three ways the collaborator call inside \<open>getSearchIntent\<close> can go:
  \<open>ai.models.generateContent\<close> rejects; it resolves with a text on which \<open>JSON.parse\<close>
  throws; it resolves with a text that \<open>JSON.parse\<close> turns into a response object.
\<close>

datatype reply = Request_fails | Text_unparsable | Text_parses SearchIntentResponse

datatype 'a promise = Rejected | Resolved 'a

definition getSearchIntent :: "reply \<Rightarrow> jsstring \<Rightarrow> SearchIntentResponse promise" where
  "getSearchIntent r query =
    (case r of
       Request_fails \<Rightarrow> Rejected
     | Text_parses v \<Rightarrow> Resolved v
     | Text_unparsable \<Rightarrow>
         Resolved \<lparr>keywords' = [query], topics = [], intent = query, sortBy = None, limit = None\<rparr>)"

text \<open>
  The body of the debounced timer callback; its value is what \<open>setSearchIntent\<close> receives.
\<close>

definition intentEffect :: "reply \<Rightarrow> jsstring \<Rightarrow> SearchIntentResponse option" where
  "intentEffect r searchQuery =
    (let queryTrim = trim searchQuery in
     if length queryTrim > 3 then
       (case getSearchIntent r queryTrim of
          Resolved v \<Rightarrow> Some v
        | Rejected \<Rightarrow> None)
     else None)"


section \<open>Persistence (apiService.ts)\<close>

text \<open>
  The IndexedDB object store \<open>items\<close> has key path \<open>id\<close>: it holds at most one record
  per id, and \<open>getAll\<close> returns the records in ascending key order (strings compare by
  code units). The store is the list of its records in that order; \<open>put\<close> replaces the
  record with the same key or inserts the new one at its place. Requests are taken to
  succeed: the \<open>onerror\<close> paths belong to the browser.
\<close>

type_synonym objectStore = "SavedItem list"

definition getAllItems :: "objectStore \<Rightarrow> SavedItem list" where
  "getAllItems db = db"

fun saveItem :: "SavedItem \<Rightarrow> objectStore \<Rightarrow> objectStore" where
  "saveItem item [] = [item]"
| "saveItem item (y # ys) =
     (if id' y = id' item then item # ys
      else if id' item < id' y then item # y # ys
      else y # saveItem item ys)"

definition deleteItem :: "jsstring \<Rightarrow> objectStore \<Rightarrow> objectStore" where
  "deleteItem k db = filter (\<lambda>i. id' i \<noteq> k) db"

text \<open>\<open>Array.from(new Set(xs))\<close>: a Set keeps each value once, in order of first insertion.\<close>

definition array_from_set :: "'a list \<Rightarrow> 'a list" where
  "array_from_set xs = foldl (\<lambda>s x. if x \<in> set s then s else s @ [x]) [] xs"

definition getAll :: "objectStore \<Rightarrow> SavedItem list" where
  "getAll db = getAllItems db"

definition save :: "SavedItem \<Rightarrow> objectStore \<Rightarrow> objectStore" where
  "save item db =
    (if sequenceNumber item = - 1 then
       (let all = getAllItems db;
            maxSeq = foldl (\<lambda>m i. max m (or_num (sequenceNumber i) 0)) 0 all
        in saveItem (item\<lparr>sequenceNumber := add_one maxSeq\<rparr>) db)
     else saveItem item db)"

definition delete :: "jsstring \<Rightarrow> objectStore \<Rightarrow> objectStore" where
  "delete k db = deleteItem k db"

definition updateEnrichment :: "jsstring \<Rightarrow> AIEnrichmentResponse \<Rightarrow> objectStore \<Rightarrow> objectStore" where
  "updateEnrichment k aiData db =
    (let all = getAllItems db in
     case find (\<lambda>i. id' i = k) all of
       None \<Rightarrow> db
     | Some item \<Rightarrow>
         saveItem (item\<lparr>
           title :=
             (case suggestedTitle aiData of
                Some s \<Rightarrow>
                  if (title item = js ''Instagram Reel'' \<or> title item = js ''Capturing...'')
                     \<and> s \<noteq> []
                  then s else title item
              | None \<Rightarrow> title item),
           tags := array_from_set (SavedItem.tags item @ AIEnrichmentResponse.tags aiData),
           topic := AIEnrichmentResponse.topic aiData,
           summary := AIEnrichmentResponse.summary aiData,
           engagementScore :=
             (case AIEnrichmentResponse.engagementScore aiData of
                Some v \<Rightarrow> or_num v (SavedItem.engagementScore item)
              | None \<Rightarrow> SavedItem.engagementScore item),
           isEnriching := Some False\<rparr>) db)"


section \<open>Notions used to state the properties, and example data\<close>

text \<open>Equality of two strings up to case, as the sources test it: on the lower-cased forms.\<close>

definition equalsIgnoreCase :: "jsstring \<Rightarrow> jsstring \<Rightarrow> bool" where
  "equalsIgnoreCase a b \<longleftrightarrow> toLowerCase a = toLowerCase b"

text \<open>The record stored under a key, if any.\<close>

definition stored :: "objectStore \<Rightarrow> jsstring \<Rightarrow> SavedItem option" where
  "stored db k = find (\<lambda>i. id' i = k) db"

text \<open>An item with the given id, topic, tags, date, sequence number and engagement score.\<close>

definition ex_item ::
  "jsstring \<Rightarrow> jsstring \<Rightarrow> jsstring list \<Rightarrow> int \<Rightarrow> int \<Rightarrow> int \<Rightarrow> SavedItem" where
  "ex_item k tp tgs d sq e =
     \<lparr>id' = k, url = [], title = [], description = [], thumbnail = [], creator = [],
      platform = UNKNOWN, tags = tgs, topic = tp, summary = [], dateAdded = d,
      sequenceNumber = sq, engagementScore = e, debugInfo = None, isEnriching = None\<rparr>"

definition item1 :: SavedItem where
  "item1 = ex_item (js ''1'') (js ''Crypto Trading'') [] 100 1 0"

definition item2 :: SavedItem where
  "item2 = ex_item (js ''2'') (js ''Recipes'') [] 200 2 500"

definition ex_patch :: AIEnrichmentResponse where
  "ex_patch = \<lparr>AIEnrichmentResponse.tags = [js ''pasta'', js ''dinner''],
     AIEnrichmentResponse.topic = js ''Food'',
     AIEnrichmentResponse.summary = js ''A pasta recipe.'',
     suggestedTitle = Some (js ''Weeknight pasta''),
     AIEnrichmentResponse.engagementScore = Some 718000\<rparr>"

definition item3 :: SavedItem where
  "item3 = ex_item (js ''3'') (js ''Baking recipes'') [js ''dessert''] 300 3 500"

text \<open>Two items with the same engagement score and the same date.\<close>

definition tieA :: SavedItem where
  "tieA = ex_item (js ''a'') (js ''Food'') [] 500 1 10"

definition tieB :: SavedItem where
  "tieB = ex_item (js ''b'') (js ''Food'') [] 500 2 10"

text \<open>Two items with the same engagement score, the older one first.\<close>

definition older :: SavedItem where
  "older = ex_item (js ''o'') (js ''Food'') [] 400 1 10"

definition newer :: SavedItem where
  "newer = ex_item (js ''n'') (js ''Food'') [] 500 2 10"

text \<open>
  \<open>a\<close> precedes \<open>b\<close> in \<open>xs\<close>: \<open>b\<close> occurs after the first occurrence of \<open>a\<close>.
\<close>

definition precedes :: "'a \<Rightarrow> 'a \<Rightarrow> 'a list \<Rightarrow> bool" where
  "precedes a b xs \<longleftrightarrow> b \<in> set (drop 1 (dropWhile (\<lambda>x. x \<noteq> a) xs))"

text \<open>
  The maximum sequence number of a store, \<open>0\<close> for the empty store.
\<close>

definition maxSequence :: "objectStore \<Rightarrow> int" where
  "maxSequence db = (if db = [] then 0 else Max (sequenceNumber ` set db))"

text \<open>The titles that stand for a title not yet known.\<close>

definition isPlaceholderTitle :: "jsstring \<Rightarrow> bool" where
  "isPlaceholderTitle t \<longleftrightarrow> t = js ''Instagram Reel'' \<or> t = js ''Capturing...''"

text \<open>Each value of a list once, at the place of its first occurrence.\<close>

function uniqueInOrder :: "'a list \<Rightarrow> 'a list" where
  "uniqueInOrder [] = []"
| "uniqueInOrder (x # xs) = x # uniqueInOrder (filter (\<lambda>y. y \<noteq> x) xs)"
  by pat_completeness auto
termination
  by (relation "measure length") (auto simp: le_imp_less_Suc)

text \<open>
  The verdict of the trigger table of \<open>normalizeTopic\<close> on a lower-cased, trimmed topic:
  the first category one of whose triggers occurs in it.
\<close>

definition categoryOf :: "jsstring \<Rightarrow> jsstring option" where
  "categoryOf t =
    (if includes_str t (js ''finance'') \<or> includes_str t (js ''invest'')
        \<or> includes_str t (js ''money'') \<or> includes_str t (js ''trading'') then Some (js ''Finance'')
     else if includes_str t (js ''gym'') \<or> includes_str t (js ''workout'')
        \<or> includes_str t (js ''fitness'') \<or> includes_str t (js ''exercise'') then Some (js ''Fitness'')
     else if includes_str t (js ''recipe'') \<or> includes_str t (js ''cooking'')
        \<or> includes_str t (js ''food'') \<or> includes_str t (js ''baking'')
        \<or> includes_str t (js ''meal'') then Some (js ''Food'')
     else if includes_str t (js ''tech'') \<or> includes_str t (js ''software'')
        \<or> includes_str t (js ''programming'') \<or> includes_str t (js ''ai'')
        \<or> includes_str t (js ''coding'') then Some (js ''Tech'')
     else if includes_str t (js ''travel'') \<or> includes_str t (js ''vacation'')
        \<or> includes_str t (js ''trip'') \<or> includes_str t (js ''place'') then Some (js ''Travel'')
     else if includes_str t (js ''fashion'') \<or> includes_str t (js ''style'')
        \<or> includes_str t (js ''outfit'') then Some (js ''Fashion'')
     else None)"

text \<open>The six labels of the trigger table.\<close>

definition canonicalLabels :: "jsstring list" where
  "canonicalLabels =
     [js ''Finance'', js ''Fitness'', js ''Food'', js ''Tech'', js ''Travel'', js ''Fashion'']"

text \<open>
  A topic matches a trigger when the table has a verdict on its lower-cased, trimmed
  form. The capitalised form of a topic is what the normalizer returns when no trigger
  matches: the first character upper-cased, followed by the remainder lower-cased.
\<close>

definition matchesTrigger :: "(jsstring \<Rightarrow> jsstring) \<Rightarrow> jsstring \<Rightarrow> bool" where
  "matchesTrigger lc t \<longleftrightarrow> categoryOf (trim (lc t)) \<noteq> None"

definition capitalised ::
  "(jsstring \<Rightarrow> jsstring) \<Rightarrow> (jsstring \<Rightarrow> jsstring) \<Rightarrow> jsstring \<Rightarrow> jsstring" where
  "capitalised lc uc t = uc (charAt t 0) @ lc (slice_str t 1)"

text \<open>The intent that \<open>getSearchIntent\<close> returns when the reply cannot be parsed.\<close>

definition fallbackIntent :: "jsstring \<Rightarrow> SearchIntentResponse" where
  "fallbackIntent query =
     \<lparr>keywords' = [query], topics = [], intent = query, sortBy = None, limit = None\<rparr>"

text \<open>
  The intent-derived match in the words of claim C3: a keyword, lower-cased, occurs in
  the haystack; or an intent topic, normalized, occurs in the normalized topic of the
  item or equals it. The forms are compared lower-cased, as the sources compare them.
\<close>

definition claimedIntentMatch :: "SearchIntentResponse \<Rightarrow> SavedItem \<Rightarrow> bool" where
  "claimedIntentMatch si item \<longleftrightarrow>
     (\<exists>k \<in> set (keywords' si). includes_str (searchableText item) (toLowerCase k)) \<or>
     (\<exists>t \<in> set (topics si).
        includes_str (toLowerCase (normalizeTopic (SavedItem.topic item)))
                     (toLowerCase (normalizeTopic t)) \<or>
        toLowerCase (normalizeTopic t) = toLowerCase (normalizeTopic (SavedItem.topic item)))"

text \<open>
  A store record with a negative sequence number, one with the sequence number \<open>2^53\<close>,
  and two items not yet numbered.
\<close>

definition negItem :: SavedItem where
  "negItem = ex_item (js ''x'') (js ''Food'') [] 100 (- 5) 0"

definition bigItem :: SavedItem where
  "bigItem = ex_item (js ''x'') (js ''Food'') [] 100 (2 ^ 53) 0"

definition newItem :: SavedItem where
  "newItem = ex_item (js ''y'') (js ''Capturing...'') [js ''saving''] 900 (- 1) 0"

definition newItem2 :: SavedItem where
  "newItem2 = ex_item (js ''z'') (js ''Capturing...'') [js ''saving''] 950 (- 1) 0"

text \<open>An item whose metadata was captured and whose enrichment is pending.\<close>

definition reel :: SavedItem where
  "reel = \<lparr>id' = js ''r'', url = js ''https://instagram.com/reel/abc'',
     title = js ''Instagram Reel'', description = js ''718K likes'', thumbnail = js ''t.jpg'',
     creator = js ''@chef'', platform = INSTAGRAM, tags = [js ''dinner'', js ''quick''],
     topic = js ''Uncategorized'', summary = js ''Pending'', dateAdded = 700,
     sequenceNumber = 7, engagementScore = 12, debugInfo = None, isEnriching = Some True\<rparr>"

text \<open>
  Strings with the code unit U+00DF, the sharp s: a topic made of it and \<open>eta\<close>; an item
  whose topic is the German word for football, \<open>Fu\<close>, sharp s, \<open>ball\<close>; and an intent
  whose one topic is the tail of that word from the sharp s on.
\<close>

definition sharpS :: jsstring where
  "sharpS = 0xDF # js ''eta''"

text \<open>
  A topic that starts with the dotless i U+0131 and goes on with \<open>nvest\<close>, and the
  French word \<open>etude\<close> with its acute accent, U+00E9, on the first letter.
\<close>

definition dotlessInvest :: jsstring where
  "dotlessInvest = 0x131 # js ''nvest''"

definition etude :: jsstring where
  "etude = 0xE9 # js ''tude''"

definition fussball :: SavedItem where
  "fussball = ex_item (js ''f'') (js ''Fu'' @ [0xDF] @ js ''ball'') [] 100 1 0"

definition ballIntent :: SearchIntentResponse where
  "ballIntent = \<lparr>keywords' = [], topics = [[0xDF] @ js ''ball''], intent = js ''soccer'',
     sortBy = None, limit = None\<rparr>"

definition tradingIntent :: SearchIntentResponse where
  "tradingIntent = \<lparr>keywords' = [js ''Crypto''], topics = [js ''Finance''],
     intent = js ''money'', sortBy = None, limit = None\<rparr>"

text \<open>The intents of the end-to-end scenarios of the specification.\<close>

definition mostLikedIntent :: SearchIntentResponse where
  "mostLikedIntent = \<lparr>keywords' = [], topics = [js ''Food''], intent = js ''most liked recipes'',
     sortBy = Some (js ''engagement-desc''), limit = None\<rparr>"

definition lastFinanceIntent :: SearchIntentResponse where
  "lastFinanceIntent = \<lparr>keywords' = [], topics = [js ''Finance''],
     intent = js ''last finance reel'', sortBy = Some (js ''sequence-desc''), limit = Some 1\<rparr>"


section \<open>Properties\<close>

subsection \<open>Category filter\<close>

text \<open>
  Claim C1. With the active category \<open>all\<close> the category filter keeps every item. With any
  other active category \<open>C\<close> it keeps exactly the items whose normalized topic equals \<open>C\<close>
  up to case, or one of whose tags, normalized, equals \<open>C\<close> up to case; the kept items
  stay in their order.
\<close>

theorem labelFilter_correct:
  "labelFilter (js ''all'') items = items \<and>
   (C \<noteq> js ''all'' \<longrightarrow>
      labelFilter C items =
        filter (\<lambda>item. equalsIgnoreCase (normalizeTopic (SavedItem.topic item)) C \<or>
                  (\<exists>t \<in> set (SavedItem.tags item). equalsIgnoreCase (normalizeTopic t) C)) items)"
  by (simp add: labelFilter_def equalsIgnoreCase_def list_ex_iff)

theorem labelFilter_correct_witness:
  "js ''finance'' \<noteq> js ''all'' \<and> labelFilter (js ''finance'') [item1, item2] = [item1]"
proof -
  have ne: "js ''finance'' \<noteq> js ''all''" by code_simp
  have "labelFilter (js ''finance'') [item1, item2] =
        filter (\<lambda>item. equalsIgnoreCase (normalizeTopic (SavedItem.topic item)) (js ''finance'') \<or>
                  (\<exists>t \<in> set (SavedItem.tags item).
                      equalsIgnoreCase (normalizeTopic t) (js ''finance'')))
          [item1, item2]"
    using labelFilter_correct [of "[item1, item2]" "js ''finance''"] ne by blast
  also have "\<dots> = [item1]" by code_simp
  finally show ?thesis using ne by simp
qed

subsection \<open>Text filter: the primary path\<close>

lemma matchesAllWords_iff:
  "matchesAllWords ws item \<longleftrightarrow> (\<forall>w \<in> set ws. includes_str (searchableText item) w)"
  by (simp add: matchesAllWords_def list_all_iff)

text \<open>
  Claim C2. An item that passed the category filter and whose haystack contains every
  token of the query is kept by the text filter, whatever the intent is, absent or not.
  (For a query without tokens the text filter keeps every item, so no hypothesis on the
  token list is needed.)
\<close>

theorem all_words_match_kept:
  assumes "item \<in> set (labelFilter activeFilter items)"
      and "\<forall>w \<in> set (queryWords (trim (toLowerCase searchQuery))).
             includes_str (searchableText item) w"
  shows "item \<in> set (intentFilter searchQuery searchIntent (labelFilter activeFilter items))"
  using assms by (simp add: intentFilter_def keepItem_def matchesAllWords_iff Let_def)

theorem all_words_match_kept_witness:
  "item2 \<in> set (labelFilter (js ''all'') [item1, item2]) \<and>
   queryWords (trim (toLowerCase (js '' Recipes ''))) = [js ''recipes''] \<and>
   includes_str (searchableText item2) (js ''recipes'') \<and>
   item2 \<in> set (intentFilter (js '' Recipes '') None (labelFilter (js ''all'') [item1, item2]))"
proof -
  have h1: "item2 \<in> set (labelFilter (js ''all'') [item1, item2])" by code_simp
  have h2: "queryWords (trim (toLowerCase (js '' Recipes ''))) = [js ''recipes'']" by code_simp
  have h3: "includes_str (searchableText item2) (js ''recipes'')" by code_simp
  have h4: "\<forall>w \<in> set (queryWords (trim (toLowerCase (js '' Recipes '')))).
      includes_str (searchableText item2) w" using h3 by (simp add: h2)
  show ?thesis using h1 h2 h3 all_words_match_kept [OF h1 h4, of None] by blast
qed

subsection \<open>Enrichment of an id that is not stored\<close>

text \<open>
  Claim C10. When no stored item has the given id, \<open>updateEnrichment\<close> returns the store
  as it was: nothing is written and nothing fails.
\<close>

theorem updateEnrichment_absent:
  "stored db k = None \<Longrightarrow> updateEnrichment k aiData db = db"
  by (simp add: updateEnrichment_def getAllItems_def stored_def)

theorem updateEnrichment_absent_witness:
  "stored [item1, item2] (js ''3'') = None \<and>
   updateEnrichment (js ''3'') ex_patch [item1, item2] = [item1, item2]"
proof -
  have h: "stored [item1, item2] (js ''3'') = None" by code_simp
  show ?thesis using h updateEnrichment_absent [OF h, of ex_patch] by simp
qed

subsection \<open>Sorting\<close>

text \<open>
  A comparator that orders by a key makes \<open>sort_js\<close> the library's stable sort by that
  key, whose properties (permutation, sortedness, stability) are then at hand.
\<close>

lemma insertBy_insort_key:
  assumes "\<And>x y. cmp x y \<le> 0 \<longleftrightarrow> f x \<le> f y"
  shows "insertBy cmp x ys = insort_key f x ys"
  by (induction ys) (simp_all add: assms)

lemma sort_js_sort_key:
  fixes f :: "'a \<Rightarrow> 'k::linorder"
  assumes "\<And>x y. cmp x y \<le> 0 \<longleftrightarrow> f x \<le> f y"
  shows "sort_js cmp xs = sort_key f xs"
proof -
  have "insertBy cmp = insort_key f"
    by (intro ext) (rule insertBy_insort_key [OF assms])
  then show ?thesis by (simp add: sort_js_def sort_key_def)
qed

lemma or_num_zero [simp]: "or_num a 0 = a"
  by (simp add: or_num_def)

text \<open>Sorting by \<open>g\<close> first does not change a later stable sort by a finer key \<open>f\<close>.\<close>

lemma sort_key_two_pass:
  fixes f :: "'a \<Rightarrow> 'k::linorder" and g :: "'a \<Rightarrow> 'j::linorder"
  assumes fg: "\<And>x y. f x = f y \<Longrightarrow> g x = g y"
  shows "sort_key f (sort_key g xs) = sort_key f xs"
proof -
  let ?ys = "sort_key f (sort_key g xs)"
  have "sort_key f xs = ?ys"
  proof (rule properties_for_sort_key)
    show "mset ?ys = mset xs" by simp
    show "sorted (map f ?ys)" by simp
    fix k assume "k \<in> set ?ys"
    have narrow: "filter (\<lambda>x. f k = f x) zs = filter (\<lambda>x. f k = f x) (filter (\<lambda>x. g x = g k) zs)"
      for zs
      by (simp, rule filter_cong) (auto dest: fg)
    have "filter (\<lambda>x. f k = f x) ?ys = filter (\<lambda>x. f k = f x) (sort_key g xs)"
      using sort_key_stable [of f "f k" "sort_key g xs"] by (simp add: eq_commute)
    also have "\<dots> = filter (\<lambda>x. f k = f x) (filter (\<lambda>x. g x = g k) (sort_key g xs))"
      by (rule narrow)
    also have "\<dots> = filter (\<lambda>x. f k = f x) (filter (\<lambda>x. g x = g k) xs)"
      by (simp only: sort_key_stable)
    also have "\<dots> = filter (\<lambda>x. f k = f x) xs"
      by (rule narrow [symmetric])
    finally show "filter (\<lambda>x. f k = f x) ?ys = filter (\<lambda>x. f k = f x) xs" .
  qed
  then show ?thesis by simp
qed

lemma ranking_date_desc:
  "ranking (js ''date-desc'') xs = sort_key (\<lambda>i. - dateAdded i) xs"
proof -
  have ne: "js ''date-desc'' \<noteq> js ''engagement-desc''"
    "js ''date-desc'' \<noteq> js ''sequence-desc''"
    "js ''date-desc'' \<noteq> js ''date-asc''" by code_simp+
  have "sort_js (firstCompare (js ''date-desc'')) xs = sort_key (\<lambda>i. - dateAdded i) xs"
    by (rule sort_js_sort_key) (simp add: firstCompare_def ne)
  then show ?thesis by (simp add: ranking_def)
qed

lemma ranking_engagement_desc:
  "ranking (js ''engagement-desc'') xs =
     sort_key (\<lambda>i. (- SavedItem.engagementScore i, - dateAdded i)) xs"
proof -
  let ?k1 = "\<lambda>i. - SavedItem.engagementScore i"
  let ?k2 = "\<lambda>i. (- SavedItem.engagementScore i, - dateAdded i)"
  have ne: "js ''engagement-desc'' \<noteq> js ''date-asc''"
    "js ''engagement-desc'' \<noteq> js ''date-desc''" by code_simp+
  have first: "sort_js (firstCompare (js ''engagement-desc'')) ys = sort_key ?k1 ys" for ys
    by (rule sort_js_sort_key) (simp add: firstCompare_def)
  have second: "sort_js (stabilityCompare (js ''engagement-desc'')) ys = sort_key ?k2 ys" for ys
    by (rule sort_js_sort_key) (auto simp add: stabilityCompare_def Let_def less_eq_prod_def)
  have "ranking (js ''engagement-desc'') xs = sort_key ?k2 (sort_key ?k1 xs)"
    by (simp add: ranking_def ne first second)
  also have "\<dots> = sort_key ?k2 xs"
    by (rule sort_key_two_pass) simp
  finally show ?thesis .
qed

subsection \<open>The pipeline without an intent\<close>

lemma queryWords_Nil: "queryWords [] = []"
  by (simp add: queryWords_def)

lemma keepItem_None:
  "keepItem ws None = (\<lambda>item. \<forall>w \<in> set ws. includes_str (searchableText item) w)"
  by (rule ext) (simp add: keepItem_def matchesAllWords_iff)

lemma intentFilter_None:
  "intentFilter q None xs =
     filter (\<lambda>item. \<forall>w \<in> set (queryWords (trim (toLowerCase q))).
                includes_str (searchableText item) w) xs"
  by (cases "trim (toLowerCase q) = []")
     (simp_all add: intentFilter_def Let_def keepItem_None queryWords_Nil)

text \<open>
  Claim C7. With the intent absent, the visible result is: the items that pass the
  category filter and whose haystack contains every token of the query (no other item
  is kept), arranged by \<open>dateAdded\<close> descending, items of the same date in the order
  they had; nothing is cut off.
\<close>

theorem no_intent_pipeline:
  fixes items :: "SavedItem list" and q af :: jsstring
  defines "kept \<equiv> filter (\<lambda>item. \<forall>w \<in> set (queryWords (trim (toLowerCase q))).
                              includes_str (searchableText item) w) (labelFilter af items)"
  defines "out \<equiv> filteredItems items q af None"
  shows "mset out = mset kept \<and>
         sorted_wrt (\<lambda>a b. dateAdded b \<le> dateAdded a) out \<and>
         (\<forall>d. filter (\<lambda>x. dateAdded x = d) out = filter (\<lambda>x. dateAdded x = d) kept)"
proof -
  have eq: "out = sort_key (\<lambda>i. - dateAdded i) kept"
    by (simp add: out_def kept_def filteredItems_def contentLimit_def sortModeOf_def
        ranking_date_desc intentFilter_None)
  have "sorted (map (\<lambda>i. - dateAdded i) out)" by (simp add: eq)
  then have "sorted_wrt (\<lambda>a b. dateAdded b \<le> dateAdded a) out"
    by (simp add: sorted_map)
  moreover have "filter (\<lambda>x. dateAdded x = d) out = filter (\<lambda>x. dateAdded x = d) kept" for d
    using sort_key_stable [of "\<lambda>i. - dateAdded i" "- d" kept] by (simp add: eq)
  ultimately show ?thesis by (simp add: eq)
qed

theorem no_intent_pipeline_witness:
  "filter (\<lambda>item. \<forall>w \<in> set (queryWords (trim (toLowerCase (js ''Recipes'')))).
              includes_str (searchableText item) w) (labelFilter (js ''all'') [item1, item2, item3])
     = [item2, item3] \<and>
   filteredItems [item1, item2, item3] (js ''Recipes'') (js ''all'') None = [item3, item2] \<and>
   mset (filteredItems [item1, item2, item3] (js ''Recipes'') (js ''all'') None)
     = mset [item2, item3] \<and>
   sorted_wrt (\<lambda>a b. dateAdded b \<le> dateAdded a)
     (filteredItems [item1, item2, item3] (js ''Recipes'') (js ''all'') None)"
proof -
  have k: "filter (\<lambda>item. \<forall>w \<in> set (queryWords (trim (toLowerCase (js ''Recipes'')))).
              includes_str (searchableText item) w) (labelFilter (js ''all'') [item1, item2, item3])
     = [item2, item3]" by code_simp
  have e: "filteredItems [item1, item2, item3] (js ''Recipes'') (js ''all'') None = [item3, item2]"
    by code_simp
  show ?thesis
    using no_intent_pipeline [of "[item1, item2, item3]" "js ''Recipes''" "js ''all''"] k e
    by simp
qed

subsection \<open>Ranking by engagement\<close>

text \<open>
  Claim C4, as amended. Under the sort mode \<open>engagement-desc\<close> the ranked output is a
  rearrangement of the filtered items in which a later item never has a higher
  engagement score than an earlier one, and among items of equal score never a later
  date: if \<open>a\<close> precedes \<open>b\<close> and their scores are equal then
  \<open>a.dateAdded \<ge> b.dateAdded\<close>, and if their scores are equal and
  \<open>a.dateAdded > b.dateAdded\<close> then \<open>a\<close> precedes \<open>b\<close>. Items equal in score and
  date keep the order they had.
\<close>

theorem engagement_ranking:
  fixes xs :: "SavedItem list"
  defines "out \<equiv> ranking (js ''engagement-desc'') xs"
  shows "mset out = mset xs \<and>
    (\<forall>i j. i < j \<and> j < length out \<longrightarrow>
       SavedItem.engagementScore (out ! j) < SavedItem.engagementScore (out ! i) \<or>
       (SavedItem.engagementScore (out ! j) = SavedItem.engagementScore (out ! i) \<and>
        dateAdded (out ! j) \<le> dateAdded (out ! i))) \<and>
    (\<forall>i j. i < length out \<and> j < length out \<and>
       SavedItem.engagementScore (out ! i) = SavedItem.engagementScore (out ! j) \<and>
       dateAdded (out ! j) < dateAdded (out ! i) \<longrightarrow> i < j) \<and>
    (\<forall>s d. filter (\<lambda>x. SavedItem.engagementScore x = s \<and> dateAdded x = d) out =
           filter (\<lambda>x. SavedItem.engagementScore x = s \<and> dateAdded x = d) xs)"
proof -
  let ?k = "\<lambda>i. (- SavedItem.engagementScore i, - dateAdded i)"
  have eq: "out = sort_key ?k xs"
    by (simp add: out_def ranking_engagement_desc)
  have perm: "mset out = mset xs" by (simp add: eq)
  have "sorted (map ?k out)" by (simp add: eq)
  then have "sorted_wrt (\<lambda>a b. ?k a \<le> ?k b) out"
    by (simp only: sorted_map)
  then have "sorted_wrt (\<lambda>a b. SavedItem.engagementScore b < SavedItem.engagementScore a \<or>
      (SavedItem.engagementScore b = SavedItem.engagementScore a \<and> dateAdded b \<le> dateAdded a)) out"
    by (rule sorted_wrt_mono_rel [rotated]) (auto simp add: less_eq_prod_def)
  then have ord: "\<forall>i j. i < j \<and> j < length out \<longrightarrow>
       SavedItem.engagementScore (out ! j) < SavedItem.engagementScore (out ! i) \<or>
       (SavedItem.engagementScore (out ! j) = SavedItem.engagementScore (out ! i) \<and>
        dateAdded (out ! j) \<le> dateAdded (out ! i))"
    by (simp add: sorted_wrt_iff_nth_less)
  have before: "i < j"
    if "i < length out" "j < length out"
      "SavedItem.engagementScore (out ! i) = SavedItem.engagementScore (out ! j)"
      "dateAdded (out ! j) < dateAdded (out ! i)" for i j
  proof (rule ccontr)
    assume "\<not> i < j"
    with that(4) have "j < i" by (cases "i = j") auto
    with ord that(1) have "dateAdded (out ! i) \<le> dateAdded (out ! j)
        \<or> SavedItem.engagementScore (out ! i) < SavedItem.engagementScore (out ! j)"
      by blast
    with that(3,4) show False by simp
  qed
  have stable: "filter (\<lambda>x. SavedItem.engagementScore x = s \<and> dateAdded x = d) out =
           filter (\<lambda>x. SavedItem.engagementScore x = s \<and> dateAdded x = d) xs" for s d
    using sort_key_stable [of ?k "(- s, - d)" xs] by (simp add: eq)
  show ?thesis using perm ord before stable by blast
qed

theorem engagement_ranking_witness:
  "ranking (js ''engagement-desc'') [older, newer] = [newer, older] \<and>
   SavedItem.engagementScore newer = SavedItem.engagementScore older \<and>
   dateAdded older < dateAdded newer \<and>
   mset (ranking (js ''engagement-desc'') [older, newer]) = mset [older, newer] \<and>
   dateAdded (ranking (js ''engagement-desc'') [older, newer] ! 1)
     \<le> dateAdded (ranking (js ''engagement-desc'') [older, newer] ! 0)"
proof -
  have e: "ranking (js ''engagement-desc'') [older, newer] = [newer, older]" by code_simp
  have s: "SavedItem.engagementScore newer = SavedItem.engagementScore older" by code_simp
  have d: "dateAdded older < dateAdded newer" by code_simp
  have len: "(0::nat) < 1 \<and> 1 < length (ranking (js ''engagement-desc'') [older, newer])"
    by (simp add: e)
  from engagement_ranking [of "[older, newer]"] len
  have "SavedItem.engagementScore (ranking (js ''engagement-desc'') [older, newer] ! 1)
          < SavedItem.engagementScore (ranking (js ''engagement-desc'') [older, newer] ! 0) \<or>
        (SavedItem.engagementScore (ranking (js ''engagement-desc'') [older, newer] ! 1)
          = SavedItem.engagementScore (ranking (js ''engagement-desc'') [older, newer] ! 0) \<and>
         dateAdded (ranking (js ''engagement-desc'') [older, newer] ! 1)
          \<le> dateAdded (ranking (js ''engagement-desc'') [older, newer] ! 0))"
    by blast
  with s have "dateAdded (ranking (js ''engagement-desc'') [older, newer] ! 1)
     \<le> dateAdded (ranking (js ''engagement-desc'') [older, newer] ! 0)"
    by (simp add: e)
  moreover have "mset (ranking (js ''engagement-desc'') [older, newer]) = mset [older, newer]"
    using engagement_ranking [of "[older, newer]"] by blast
  ultimately show ?thesis using e s d by blast
qed

text \<open>
  The claim as stated asks, for items of equal score, that \<open>a\<close> precede \<open>b\<close> exactly
  when \<open>a.dateAdded \<ge> b.dateAdded\<close>. Two items of equal score and equal date refute
  it: each would have to precede the other. Here \<open>tieB\<close> has the score of \<open>tieA\<close> and
  a date that is not earlier, and does not precede it.
\<close>

theorem engagement_tie_counterexample:
  "ranking (js ''engagement-desc'') [tieA, tieB] = [tieA, tieB] \<and>
   SavedItem.engagementScore tieB = SavedItem.engagementScore tieA \<and>
   dateAdded tieB \<ge> dateAdded tieA \<and>
   \<not> precedes tieB tieA (ranking (js ''engagement-desc'') [tieA, tieB])"
  by code_simp

subsection \<open>The object store\<close>

lemma stored_saveItem_same: "stored (saveItem x db) (id' x) = Some x"
  by (induction db) (auto simp add: stored_def)

lemma stored_saveItem_other: "k \<noteq> id' x \<Longrightarrow> stored (saveItem x db) k = stored db k"
  by (induction db) (auto simp add: stored_def)

lemma stored_in_set: "stored db k = Some x \<Longrightarrow> x \<in> set db \<and> id' x = k"
  by (auto simp add: stored_def find_Some_iff)

subsection \<open>Sequence numbers\<close>

lemma foldl_maxSeq:
  "foldl (\<lambda>m i. max m (sequenceNumber i)) a db =
     (if db = [] then a else max a (Max (sequenceNumber ` set db)))"
proof (induction db arbitrary: a)
  case Nil
  then show ?case by simp
next
  case (Cons x db)
  then show ?case by (cases "db = []") (auto simp add: max.assoc)
qed

lemma save_sentinel:
  "sequenceNumber item = - 1 \<Longrightarrow>
     save item db = saveItem (item\<lparr>sequenceNumber := add_one (max 0 (maxSequence db))\<rparr>) db"
  by (simp add: save_def getAllItems_def foldl_maxSeq maxSequence_def Let_def)

lemma maxSequence_ge: "x \<in> set db \<Longrightarrow> sequenceNumber x \<le> maxSequence db"
  by (auto simp add: maxSequence_def)

lemma add_one_exact: "n < 2 ^ 53 \<Longrightarrow> add_one n = n + 1"
  by (simp add: add_one_def)

lemma add_one_ge: "n \<le> add_one n"
  by (simp add: add_one_def)

text \<open>
  Claim C5, as amended. Let \<open>M\<close> be the maximum sequence number of the store, \<open>0\<close> for
  the empty store. Saving an item whose sequence number is the sentinel \<open>-1\<close> stores it
  under its id with the double-precision sum of \<open>max(M, 0)\<close> and \<open>1\<close>, which is
  \<open>M + 1\<close> whenever \<open>0 \<le> M < 2^53\<close>. Saving two sentinel items one after the other
  gives the second a strictly greater number than the first whenever
  \<open>max(M, 0) + 1 < 2^53\<close>. Saving an item whose sequence number is not \<open>-1\<close> stores
  it under its id as it is. In every case the records under other ids are untouched.
\<close>

theorem save_sequence:
  "(sequenceNumber item = - 1 \<longrightarrow>
      stored (save item db) (id' item)
        = Some (item\<lparr>sequenceNumber := add_one (max 0 (maxSequence db))\<rparr>)) \<and>
   (sequenceNumber item = - 1 \<and> 0 \<le> maxSequence db \<and> maxSequence db < 2 ^ 53 \<longrightarrow>
      stored (save item db) (id' item)
        = Some (item\<lparr>sequenceNumber := maxSequence db + 1\<rparr>)) \<and>
   (sequenceNumber a = - 1 \<and> sequenceNumber b = - 1 \<and> max 0 (maxSequence db) + 1 < 2 ^ 53 \<longrightarrow>
      (\<exists>sa sb. stored (save a db) (id' a) = Some (a\<lparr>sequenceNumber := sa\<rparr>) \<and>
               stored (save b (save a db)) (id' b) = Some (b\<lparr>sequenceNumber := sb\<rparr>) \<and>
               sa < sb)) \<and>
   (sequenceNumber item \<noteq> - 1 \<longrightarrow> stored (save item db) (id' item) = Some item) \<and>
   (k \<noteq> id' item \<longrightarrow> stored (save item db) k = stored db k)"
proof -
  have one: "stored (save x d) (id' x)
      = Some (x\<lparr>sequenceNumber := add_one (max 0 (maxSequence d))\<rparr>)"
    if "sequenceNumber x = - 1" for x d
    using stored_saveItem_same [of "x\<lparr>sequenceNumber := add_one (max 0 (maxSequence d))\<rparr>" d] that
    by (simp add: save_sentinel)
  have one': "stored (save item db) (id' item)
      = Some (item\<lparr>sequenceNumber := maxSequence db + 1\<rparr>)"
    if "sequenceNumber item = - 1" "0 \<le> maxSequence db" "maxSequence db < 2 ^ 53"
  proof -
    from that(2,3) have "add_one (max 0 (maxSequence db)) = maxSequence db + 1"
      by (simp add: add_one_exact max_absorb2)
    with one [OF that(1), of db] show ?thesis by simp
  qed
  have two: "\<exists>sa sb. stored (save a db) (id' a) = Some (a\<lparr>sequenceNumber := sa\<rparr>) \<and>
               stored (save b (save a db)) (id' b) = Some (b\<lparr>sequenceNumber := sb\<rparr>) \<and>
               sa < sb"
    if ab: "sequenceNumber a = - 1" "sequenceNumber b = - 1"
      and small: "max 0 (maxSequence db) + 1 < 2 ^ 53"
  proof -
    let ?sa = "add_one (max 0 (maxSequence db))"
    let ?m = "max 0 (maxSequence (save a db))"
    let ?sb = "add_one ?m"
    from small have sa: "?sa = max 0 (maxSequence db) + 1"
      by (simp add: add_one_exact)
    have "a\<lparr>sequenceNumber := ?sa\<rparr> \<in> set (save a db)"
      using one [OF ab(1), of db] stored_in_set by blast
    then have "sequenceNumber (a\<lparr>sequenceNumber := ?sa\<rparr>) \<le> maxSequence (save a db)"
      by (rule maxSequence_ge)
    then have le: "?sa \<le> ?m" by simp
    have "?sa < ?sb"
    proof (cases "?m < 2 ^ 53")
      case True
      then have "?sb = ?m + 1" by (rule add_one_exact)
      with le show ?thesis by simp
    next
      case False
      moreover have "?m \<le> ?sb" by (rule add_one_ge)
      ultimately show ?thesis using sa small by simp
    qed
    with one [OF ab(1), of db] one [OF ab(2), of "save a db"] show ?thesis by blast
  qed
  have three: "stored (save item db) (id' item) = Some item" if "sequenceNumber item \<noteq> - 1"
    using that by (simp add: save_def stored_saveItem_same)
  have four: "stored (save item db) k = stored db k" if "k \<noteq> id' item"
    using that by (simp add: save_def stored_saveItem_other Let_def)
  show ?thesis using one one' two three four by blast
qed

theorem save_sequence_witness:
  "sequenceNumber newItem = - 1 \<and> sequenceNumber newItem2 = - 1 \<and>
   maxSequence [item1, item2] = 2 \<and>
   stored (save newItem [item1, item2]) (id' newItem) = Some (newItem\<lparr>sequenceNumber := 3\<rparr>) \<and>
   stored (save newItem2 (save newItem [item1, item2])) (id' newItem2)
     = Some (newItem2\<lparr>sequenceNumber := 4\<rparr>) \<and>
   sequenceNumber item3 \<noteq> - 1 \<and>
   stored (save item3 [item1, item2]) (id' item3) = Some item3 \<and>
   js ''1'' \<noteq> id' item3 \<and>
   stored (save item3 [item1, item2]) (js ''1'') = Some item1"
proof -
  have s1: "sequenceNumber newItem = - 1" and s2: "sequenceNumber newItem2 = - 1"
    and s3: "sequenceNumber item3 \<noteq> - 1" and s4: "js ''1'' \<noteq> id' item3"
    by code_simp+
  have m: "maxSequence [item1, item2] = 2" by code_simp
  have m2: "maxSequence (save newItem [item1, item2]) = 3" by code_simp
  have r: "add_one 2 = 3" "add_one 3 = 4" by (simp_all add: add_one_def)
  have st: "stored [item1, item2] (js ''1'') = Some item1" by code_simp
  have a: "stored (save newItem [item1, item2]) (id' newItem) = Some (newItem\<lparr>sequenceNumber := 3\<rparr>)"
    using save_sequence [of newItem "[item1, item2]"] s1 m r by simp
  have b: "stored (save newItem2 (save newItem [item1, item2])) (id' newItem2)
     = Some (newItem2\<lparr>sequenceNumber := 4\<rparr>)"
    using save_sequence [of newItem2 "save newItem [item1, item2]"] s2 m2 r by simp
  have c: "stored (save item3 [item1, item2]) (id' item3) = Some item3"
    using save_sequence [of item3 "[item1, item2]"] s3 by blast
  have d: "stored (save item3 [item1, item2]) (js ''1'') = Some item1"
    using save_sequence [of item3 "[item1, item2]" _ _ "js ''1''"] s4 st by simp
  show ?thesis using s1 s2 s3 s4 m a b c d by blast
qed

text \<open>
  The claim as stated gives \<open>M + 1\<close> for every store, and two different numbers to two
  sentinel items in a row. A store whose only record has sequence number \<open>-5\<close> has
  \<open>M = -5\<close>; the sentinel item is stored with \<open>1\<close>, not with \<open>-4\<close>, because the
  maximum is taken starting from \<open>0\<close>. A store whose only record has sequence number
  \<open>2^53\<close>, which is where the numbering arrives after that many saves, has
  \<open>M = 2^53\<close>; the sentinel item is stored with \<open>2^53\<close> again, because the sum is
  rounded, and so is the next one.
\<close>

theorem save_sequence_counterexample:
  "sequenceNumber newItem = - 1 \<and> sequenceNumber newItem2 = - 1 \<and>
   maxSequence [negItem] = - 5 \<and>
   stored (save newItem [negItem]) (id' newItem) = Some (newItem\<lparr>sequenceNumber := 1\<rparr>) \<and>
   stored (save newItem [negItem]) (id' newItem)
     \<noteq> Some (newItem\<lparr>sequenceNumber := maxSequence [negItem] + 1\<rparr>) \<and>
   maxSequence [bigItem] = 2 ^ 53 \<and>
   stored (save newItem [bigItem]) (id' newItem) = Some (newItem\<lparr>sequenceNumber := 2 ^ 53\<rparr>) \<and>
   stored (save newItem [bigItem]) (id' newItem)
     \<noteq> Some (newItem\<lparr>sequenceNumber := maxSequence [bigItem] + 1\<rparr>) \<and>
   stored (save newItem2 (save newItem [bigItem])) (id' newItem2)
     = Some (newItem2\<lparr>sequenceNumber := 2 ^ 53\<rparr>)"
  by code_simp

subsection \<open>Enrichment of a stored item\<close>

lemma remdups_snoc: "remdups (zs @ [y]) = filter (\<lambda>x. x \<noteq> y) (remdups zs) @ [y]"
  by (induction zs) auto

lemma foldl_set_insert:
  "foldl (\<lambda>s x. if x \<in> set s then s else s @ [x]) acc xs =
     acc @ filter (\<lambda>x. x \<notin> set acc) (rev (remdups (rev xs)))"
proof (induction xs arbitrary: acc)
  case Nil
  then show ?case by simp
next
  case (Cons y ys)
  show ?case
  proof (cases "y \<in> set acc")
    case True
    then have "filter (\<lambda>x. x \<notin> set acc) (filter (\<lambda>x. x \<noteq> y) zs) = filter (\<lambda>x. x \<notin> set acc) zs"
      for zs
      by (induction zs) auto
    with True Cons.IH [of acc] show ?thesis
      by (simp add: remdups_snoc rev_filter)
  next
    case False
    with Cons.IH [of "acc @ [y]"] show ?thesis
      by (simp add: remdups_snoc rev_filter conj_commute)
  qed
qed

lemma array_from_set_first_occurrences: "array_from_set xs = rev (remdups (rev xs))"
  by (simp add: array_from_set_def foldl_set_insert)

lemma first_occurrences_Cons:
  "rev (remdups (rev (x # xs))) = x # rev (remdups (rev (filter (\<lambda>y. y \<noteq> x) xs)))"
  by (simp add: remdups_snoc rev_filter remdups_filter)

text \<open>The insertion loop of the Set computes the first occurrences.\<close>

lemma array_from_set_uniqueInOrder: "array_from_set xs = uniqueInOrder xs"
proof -
  have "rev (remdups (rev xs)) = uniqueInOrder xs"
  proof (induction xs rule: uniqueInOrder.induct)
    case 1
    then show ?case by simp
  next
    case (2 x xs)
    then show ?case by (simp only: first_occurrences_Cons uniqueInOrder.simps)
  qed
  then show ?thesis by (simp add: array_from_set_first_occurrences)
qed

lemma set_array_from_set: "set (array_from_set xs) = set xs"
  by (simp add: array_from_set_first_occurrences)

lemma distinct_array_from_set: "distinct (array_from_set xs)"
  by (simp add: array_from_set_first_occurrences)

text \<open>
  Claim C6. When an item is stored under the given id, \<open>updateEnrichment\<close> stores under
  that id an item whose tags are the existing tags followed by the tags of the patch,
  each value once at its first occurrence (so: without duplicates, and with the union of
  the two as its set); whose topic and summary are those of the patch; whose engagement
  score is that of the patch if the patch has one and it is not zero, and the old one
  otherwise; whose title is the suggested title if the old title is a placeholder and
  the patch has a non-empty suggested title, and the old title otherwise; whose
  enriching flag is false; and whose other fields are those of the old item.
\<close>

theorem updateEnrichment_stores:
  assumes "stored db k = Some item"
  shows "\<exists>u. stored (updateEnrichment k aiData db) k = Some u \<and>
     SavedItem.tags u = uniqueInOrder (SavedItem.tags item @ AIEnrichmentResponse.tags aiData) \<and>
     distinct (SavedItem.tags u) \<and>
     set (SavedItem.tags u) = set (SavedItem.tags item) \<union> set (AIEnrichmentResponse.tags aiData) \<and>
     SavedItem.topic u = AIEnrichmentResponse.topic aiData \<and>
     SavedItem.summary u = AIEnrichmentResponse.summary aiData \<and>
     SavedItem.engagementScore u =
       (case AIEnrichmentResponse.engagementScore aiData of
          Some v \<Rightarrow> if v \<noteq> 0 then v else SavedItem.engagementScore item
        | None \<Rightarrow> SavedItem.engagementScore item) \<and>
     title u =
       (case suggestedTitle aiData of
          Some s \<Rightarrow> if isPlaceholderTitle (title item) \<and> s \<noteq> [] then s else title item
        | None \<Rightarrow> title item) \<and>
     isEnriching u = Some False \<and>
     id' u = id' item \<and> url u = url item \<and> dateAdded u = dateAdded item \<and>
     sequenceNumber u = sequenceNumber item \<and> platform u = platform item \<and>
     thumbnail u = thumbnail item \<and> creator u = creator item \<and>
     description u = description item \<and> debugInfo u = debugInfo item"
proof -
  let ?u = "item\<lparr>
           title :=
             (case suggestedTitle aiData of
                Some s \<Rightarrow>
                  if (title item = js ''Instagram Reel'' \<or> title item = js ''Capturing...'')
                     \<and> s \<noteq> []
                  then s else title item
              | None \<Rightarrow> title item),
           tags := array_from_set (SavedItem.tags item @ AIEnrichmentResponse.tags aiData),
           topic := AIEnrichmentResponse.topic aiData,
           summary := AIEnrichmentResponse.summary aiData,
           engagementScore :=
             (case AIEnrichmentResponse.engagementScore aiData of
                Some v \<Rightarrow> or_num v (SavedItem.engagementScore item)
              | None \<Rightarrow> SavedItem.engagementScore item),
           isEnriching := Some False\<rparr>"
  from assms have k: "id' item = k" by (simp add: stored_in_set)
  have upd: "updateEnrichment k aiData db = saveItem ?u db"
    using assms by (simp add: updateEnrichment_def getAllItems_def stored_def)
  have "id' ?u = k" using k by simp
  then have st: "stored (updateEnrichment k aiData db) k = Some ?u"
    using stored_saveItem_same [of ?u db] by (simp only: upd)
  have es: "SavedItem.engagementScore ?u =
       (case AIEnrichmentResponse.engagementScore aiData of
          Some v \<Rightarrow> if v \<noteq> 0 then v else SavedItem.engagementScore item
        | None \<Rightarrow> SavedItem.engagementScore item)"
    by (simp add: or_num_def split: option.split)
  have ti: "title ?u =
       (case suggestedTitle aiData of
          Some s \<Rightarrow> if isPlaceholderTitle (title item) \<and> s \<noteq> [] then s else title item
        | None \<Rightarrow> title item)"
    by (simp add: isPlaceholderTitle_def split: option.split)
  have tg: "SavedItem.tags ?u
      = uniqueInOrder (SavedItem.tags item @ AIEnrichmentResponse.tags aiData)"
    by (simp add: array_from_set_uniqueInOrder)
  have tg2: "distinct (SavedItem.tags ?u)" by (simp add: distinct_array_from_set)
  have tg3: "set (SavedItem.tags ?u)
      = set (SavedItem.tags item) \<union> set (AIEnrichmentResponse.tags aiData)"
    by (simp add: set_array_from_set)
  have rest: "SavedItem.topic ?u = AIEnrichmentResponse.topic aiData \<and>
     SavedItem.summary ?u = AIEnrichmentResponse.summary aiData \<and>
     isEnriching ?u = Some False \<and>
     id' ?u = id' item \<and> url ?u = url item \<and> dateAdded ?u = dateAdded item \<and>
     sequenceNumber ?u = sequenceNumber item \<and> platform ?u = platform item \<and>
     thumbnail ?u = thumbnail item \<and> creator ?u = creator item \<and>
     description ?u = description item \<and> debugInfo ?u = debugInfo item"
    by simp
  show ?thesis
    apply (rule exI [of _ ?u])
    using st es ti tg tg2 tg3 rest by (simp only: simp_thms)
qed

theorem updateEnrichment_stores_witness:
  "stored [item1, reel] (js ''r'') = Some reel \<and>
   map_option SavedItem.tags (stored (updateEnrichment (js ''r'') ex_patch [item1, reel]) (js ''r''))
     = Some [js ''dinner'', js ''quick'', js ''pasta''] \<and>
   map_option title (stored (updateEnrichment (js ''r'') ex_patch [item1, reel]) (js ''r''))
     = Some (js ''Weeknight pasta'') \<and>
   map_option SavedItem.engagementScore
     (stored (updateEnrichment (js ''r'') ex_patch [item1, reel]) (js ''r'')) = Some 718000 \<and>
   map_option sequenceNumber
     (stored (updateEnrichment (js ''r'') ex_patch [item1, reel]) (js ''r'')) = Some 7"
proof -
  have h: "stored [item1, reel] (js ''r'') = Some reel" by code_simp
  have t: "uniqueInOrder (SavedItem.tags reel @ AIEnrichmentResponse.tags ex_patch)
      = [js ''dinner'', js ''quick'', js ''pasta'']" by code_simp
  have p: "isPlaceholderTitle (title reel)" by code_simp
  have s: "suggestedTitle ex_patch = Some (js ''Weeknight pasta'')"
    and e: "AIEnrichmentResponse.engagementScore ex_patch = Some 718000"
    and n: "sequenceNumber reel = 7" and ne: "js ''Weeknight pasta'' \<noteq> []"
    by code_simp+
  from updateEnrichment_stores [OF h, of ex_patch] obtain u where
    u: "stored (updateEnrichment (js ''r'') ex_patch [item1, reel]) (js ''r'') = Some u"
    and "SavedItem.tags u = uniqueInOrder (SavedItem.tags reel @ AIEnrichmentResponse.tags ex_patch)"
    and "SavedItem.engagementScore u =
       (case AIEnrichmentResponse.engagementScore ex_patch of
          Some v \<Rightarrow> if v \<noteq> 0 then v else SavedItem.engagementScore reel
        | None \<Rightarrow> SavedItem.engagementScore reel)"
    and "title u =
       (case suggestedTitle ex_patch of
          Some s \<Rightarrow> if isPlaceholderTitle (title reel) \<and> s \<noteq> [] then s else title reel
        | None \<Rightarrow> title reel)"
    and "sequenceNumber u = sequenceNumber reel"
    by blast
  then show ?thesis using h t p s e n ne by simp
qed

subsection \<open>Case conversion on code units\<close>

lemma unat_plus_32:
  fixes c :: "16 word"
  assumes "c \<le> 0xDE"
  shows "unat (c + 0x20) = unat c + 32"
proof -
  from assms have "unat c \<le> 222" by (simp add: word_le_nat_alt)
  then have "unat c + unat (0x20 :: 16 word) < 2 ^ LENGTH(16)" by simp
  then have "unat (c + 0x20) = unat c + unat (0x20 :: 16 word)"
    by (simp only: unat_add_lem)
  then show ?thesis by simp
qed

lemma lowerUnit_unat:
  "unat (lowerUnit c) =
     (if (65 \<le> unat c \<and> unat c \<le> 90) \<or> (192 \<le> unat c \<and> unat c \<le> 222 \<and> unat c \<noteq> 215)
      then unat c + 32
      else if unat c = 376 then 255
      else if unat c = 924 then 956
      else unat c)"
proof -
  have le: "c \<le> 0xDE" if "unat c \<le> 222"
    using that by (simp add: word_le_nat_alt)
  show ?thesis
    by (auto simp add: lowerUnit_def word_le_nat_alt word_unat_eq_iff unat_plus_32 le)
qed

lemma isWhiteSpace_unat:
  "isWhiteSpace c \<longleftrightarrow>
     unat c \<in> {9, 10, 11, 12, 13, 32, 160, 5760, 8232, 8233, 8239, 8287, 12288, 65279}
     \<or> (8192 \<le> unat c \<and> unat c \<le> 8202)"
  unfolding isWhiteSpace_def word_le_nat_alt word_unat_eq_iff by simp blast

lemma lowerUnit_idem: "lowerUnit (lowerUnit c) = lowerUnit c"
  by (simp add: word_unat_eq_iff lowerUnit_unat)

lemma isWhiteSpace_lowerUnit: "isWhiteSpace (lowerUnit c) = isWhiteSpace c"
  by (auto simp add: isWhiteSpace_unat lowerUnit_unat)

lemma toLowerCase_idem: "toLowerCase (toLowerCase s) = toLowerCase s"
  by (simp add: toLowerCase_def lowerUnit_idem)

lemma toLowerCase_trim: "toLowerCase (trim s) = trim (toLowerCase s)"
proof -
  have comp: "isWhiteSpace \<circ> lowerUnit = isWhiteSpace"
    by (rule ext) (simp add: isWhiteSpace_lowerUnit)
  show ?thesis
    by (simp add: toLowerCase_def trim_def rev_map dropWhile_map comp)
qed

subsection \<open>Topic normalizer\<close>

lemma normalizeTopic_categoryOf:
  "normalizeTopic t0 =
     (case categoryOf (trim (toLowerCase t0)) of
        Some c \<Rightarrow> c
      | None \<Rightarrow> toUpperCase (charAt t0 0) @ toLowerCase (slice_str t0 1))"
  unfolding normalizeTopic_def categoryOf_def Let_def by simp

lemma canonical_fixed:
  "normalizeTopic (js ''Finance'') = js ''Finance''"
  "normalizeTopic (js ''Fitness'') = js ''Fitness''"
  "normalizeTopic (js ''Food'') = js ''Food''"
  "normalizeTopic (js ''Tech'') = js ''Tech''"
  "normalizeTopic (js ''Travel'') = js ''Travel''"
  "normalizeTopic (js ''Fashion'') = js ''Fashion''"
  by code_simp+

lemma normalizeTopicWith_categoryOf:
  "normalizeTopicWith lc uc t0 =
     (case categoryOf (trim (lc t0)) of Some c \<Rightarrow> c | None \<Rightarrow> capitalised lc uc t0)"
  unfolding normalizeTopicWith_def categoryOf_def capitalised_def Let_def by simp

lemma normalizeTopic_instance: "normalizeTopic t = normalizeTopicWith toLowerCase toUpperCase t"
  by (simp add: normalizeTopic_categoryOf normalizeTopicWith_categoryOf capitalised_def
      split: option.split)

lemma categoryOf_label: "categoryOf t = Some c \<Longrightarrow> c \<in> set canonicalLabels"
  unfolding categoryOf_def canonicalLabels_def by (auto split: if_splits)

lemma label_verdict:
  "categoryOf (trim (toLowerCase (js ''Finance''))) = Some (js ''Finance'')"
  "categoryOf (trim (toLowerCase (js ''Fitness''))) = Some (js ''Fitness'')"
  "categoryOf (trim (toLowerCase (js ''Food''))) = Some (js ''Food'')"
  "categoryOf (trim (toLowerCase (js ''Tech''))) = Some (js ''Tech'')"
  "categoryOf (trim (toLowerCase (js ''Travel''))) = Some (js ''Travel'')"
  "categoryOf (trim (toLowerCase (js ''Fashion''))) = Some (js ''Fashion'')"
  by code_simp+

lemma label_fixed:
  assumes "c \<in> set canonicalLabels" and "lc c = toLowerCase c"
  shows "normalizeTopicWith lc uc c = c"
proof -
  from assms(1) have "categoryOf (trim (toLowerCase c)) = Some c"
    unfolding canonicalLabels_def by (auto simp add: label_verdict)
  with assms(2) show ?thesis by (simp add: normalizeTopicWith_categoryOf)
qed

text \<open>The capitalised form of a capitalised topic is that topic.\<close>

lemma capitalised_twice:
  assumes "lc [] = []" and "lc (lc (slice_str t 1)) = lc (slice_str t 1)"
      and "length (uc (charAt t 0)) = length (charAt t 0)"
      and "uc (uc (charAt t 0)) = uc (charAt t 0)"
  shows "capitalised lc uc (capitalised lc uc t) = capitalised lc uc t"
proof (cases t)
  case Nil
  with assms(1,3) show ?thesis
    by (simp add: capitalised_def charAt_def slice_str_def)
next
  case (Cons x s)
  with assms(3) obtain u where u: "uc [x] = [u]"
    by (cases "uc [x]") (auto simp add: charAt_def)
  with Cons assms(2,4) show ?thesis
    by (simp add: capitalised_def charAt_def slice_str_def)
qed

text \<open>
  Claim C9, as amended, for any two case conversions of which the lower-casing keeps
  the empty string, is idempotent and lower-cases the six labels as the ASCII table
  does (all of which the engine's does). The topic normalizer is idempotent on every
  topic that matches a trigger, and on every other topic whose first character has an
  upper case of one character that upper-casing leaves unchanged, and whose capitalised
  form matches no trigger either: on those, \<open>normalize(normalize(t)) = normalize(t)\<close>.
\<close>

theorem normalizeTopic_idempotent:
  fixes lc uc :: "jsstring \<Rightarrow> jsstring"
  assumes lc_Nil: "lc [] = []"
      and lc_idem: "\<And>s. lc (lc s) = lc s"
      and labels: "\<And>c. c \<in> set canonicalLabels \<Longrightarrow> lc c = toLowerCase c"
      and t: "matchesTrigger lc t \<or>
              (length (uc (charAt t 0)) = length (charAt t 0) \<and>
               uc (uc (charAt t 0)) = uc (charAt t 0) \<and>
               \<not> matchesTrigger lc (capitalised lc uc t))"
  shows "normalizeTopicWith lc uc (normalizeTopicWith lc uc t) = normalizeTopicWith lc uc t"
proof (cases "categoryOf (trim (lc t))")
  case (Some c)
  then have "normalizeTopicWith lc uc t = c" by (simp add: normalizeTopicWith_categoryOf)
  moreover from Some have "c \<in> set canonicalLabels" by (rule categoryOf_label)
  ultimately show ?thesis by (simp add: label_fixed labels)
next
  case None
  let ?r = "capitalised lc uc t"
  from None have r: "normalizeTopicWith lc uc t = ?r"
    by (simp add: normalizeTopicWith_categoryOf)
  from None t have cond: "length (uc (charAt t 0)) = length (charAt t 0)"
    "uc (uc (charAt t 0)) = uc (charAt t 0)" "categoryOf (trim (lc ?r)) = None"
    by (simp_all add: matchesTrigger_def)
  from cond(3) have "normalizeTopicWith lc uc ?r = capitalised lc uc ?r"
    by (simp add: normalizeTopicWith_categoryOf)
  also have "\<dots> = ?r"
    using lc_Nil lc_idem cond(1,2) by (rule capitalised_twice)
  finally show ?thesis by (simp add: r)
qed

theorem normalizeTopic_idempotent_witness:
  "toLowerCase [] = [] \<and>
   \<not> matchesTrigger toLowerCase etude \<and>
   toUpperCase (charAt etude 0) = [0xC9] \<and>
   toUpperCase [0xC9] = [0xC9] \<and>
   capitalised toLowerCase toUpperCase etude = 0xC9 # js ''tude'' \<and>
   \<not> matchesTrigger toLowerCase (capitalised toLowerCase toUpperCase etude) \<and>
   normalizeTopic etude = 0xC9 # js ''tude'' \<and>
   normalizeTopic (normalizeTopic etude) = normalizeTopic etude"
proof -
  have n: "toLowerCase [] = []" by (simp add: toLowerCase_def)
  have m: "\<not> matchesTrigger toLowerCase etude" by code_simp
  have u: "toUpperCase (charAt etude 0) = [0xC9]" and uu: "toUpperCase [0xC9] = [0xC9]"
    by code_simp+
  have c: "capitalised toLowerCase toUpperCase etude = 0xC9 # js ''tude''" by code_simp
  have mc: "\<not> matchesTrigger toLowerCase (capitalised toLowerCase toUpperCase etude)"
    by code_simp
  have e: "normalizeTopic etude = 0xC9 # js ''tude''" by code_simp
  have len: "length (toUpperCase (charAt etude 0)) = length (charAt etude 0)" by code_simp
  have cond: "matchesTrigger toLowerCase etude \<or>
      (length (toUpperCase (charAt etude 0)) = length (charAt etude 0) \<and>
       toUpperCase (toUpperCase (charAt etude 0)) = toUpperCase (charAt etude 0) \<and>
       \<not> matchesTrigger toLowerCase (capitalised toLowerCase toUpperCase etude))"
    using len u uu mc by simp
  have "normalizeTopicWith toLowerCase toUpperCase (normalizeTopicWith toLowerCase toUpperCase etude)
      = normalizeTopicWith toLowerCase toUpperCase etude"
  proof (rule normalizeTopic_idempotent)
    show "toLowerCase [] = []" by (rule n)
    show "toLowerCase (toLowerCase s) = toLowerCase s" for s by (rule toLowerCase_idem)
    show "toLowerCase c = toLowerCase c" if "c \<in> set canonicalLabels" for c by (rule refl)
    show "matchesTrigger toLowerCase etude \<or>
      (length (toUpperCase (charAt etude 0)) = length (charAt etude 0) \<and>
       toUpperCase (toUpperCase (charAt etude 0)) = toUpperCase (charAt etude 0) \<and>
       \<not> matchesTrigger toLowerCase (capitalised toLowerCase toUpperCase etude))"
      by (rule cond)
  qed
  then have "normalizeTopic (normalizeTopic etude) = normalizeTopic etude"
    by (simp add: normalizeTopic_instance)
  with n m u uu c mc e show ?thesis by blast
qed

text \<open>
  Where lower-casing acts code unit by code unit, as in the model, the capitalised form
  has the lower case of the topic as soon as lower-casing the upper-cased first
  character gives the lower-cased first character; a topic that matches no trigger
  then has a capitalised form that matches none.
\<close>

lemma capitalised_lower:
  assumes "\<And>x s. lc (x # s) = lc [x] @ lc s" and "\<And>s. lc (lc s) = lc s"
      and "uc [x] = [u]" and "lc [u] = lc [x]"
  shows "lc (capitalised lc uc (x # s)) = lc (x # s)"
proof -
  have "lc (capitalised lc uc (x # s)) = lc (u # lc s)"
    using assms(3) by (simp add: capitalised_def charAt_def slice_str_def)
  also have "\<dots> = lc [u] @ lc (lc s)" by (rule assms(1))
  also have "\<dots> = lc [x] @ lc s" by (simp add: assms(2,4))
  also have "\<dots> = lc (x # s)" by (rule assms(1) [symmetric])
  finally show ?thesis .
qed

lemma capitalised_matchesTrigger:
  assumes "\<And>x s. lc (x # s) = lc [x] @ lc s" and "\<And>s. lc (lc s) = lc s"
      and "uc [x] = [u]" and "lc [u] = lc [x]"
  shows "matchesTrigger lc (capitalised lc uc (x # s)) = matchesTrigger lc (x # s)"
  by (simp add: matchesTrigger_def capitalised_lower [of lc uc, OF assms])

text \<open>
  The claim as stated is for every string. The upper case of the sharp s is \<open>SS\<close>, so a
  topic that starts with it and matches no trigger is normalized to a string that
  starts with \<open>SS\<close>, and that one to a string that starts with \<open>Ss\<close>. The upper
  case of the dotless i is \<open>I\<close>, so the topic made of it and \<open>nvest\<close> matches no
  trigger while its capitalised form \<open>Invest\<close> matches one.
\<close>

theorem normalizeTopic_idempotent_counterexample:
  "normalizeTopic sharpS = js ''SSeta'' \<and>
   normalizeTopic (js ''SSeta'') = js ''Sseta'' \<and>
   normalizeTopic (normalizeTopic sharpS) \<noteq> normalizeTopic sharpS \<and>
   normalizeTopic dotlessInvest = js ''Invest'' \<and>
   normalizeTopic (js ''Invest'') = js ''Finance'' \<and>
   normalizeTopic (normalizeTopic dotlessInvest) \<noteq> normalizeTopic dotlessInvest"
  by code_simp

subsection \<open>Text filter: the intent-derived path\<close>

text \<open>
  Claim C3, as amended. For an item on which the all-words match fails, and a present
  intent, the text filter keeps the item exactly when some intent keyword, lower-cased,
  occurs in the haystack, or some intent topic, lower-cased (and not normalized), occurs
  in the lower-cased normalized topic of the item, or the normalized form of that intent
  topic equals the normalized topic of the item up to case.
\<close>

theorem intent_fallback_match:
  assumes "item \<in> set xs"
      and "\<not> (\<forall>w \<in> set (queryWords (trim (toLowerCase q))). includes_str (searchableText item) w)"
  shows "item \<in> set (intentFilter q (Some si) xs) \<longleftrightarrow>
     (\<exists>k \<in> set (keywords' si). includes_str (searchableText item) (toLowerCase k)) \<or>
     (\<exists>t \<in> set (topics si).
        includes_str (toLowerCase (normalizeTopic (SavedItem.topic item))) (toLowerCase t) \<or>
        toLowerCase (normalizeTopic t) = toLowerCase (normalizeTopic (SavedItem.topic item)))"
proof -
  from assms(2) have "queryWords (trim (toLowerCase q)) \<noteq> []" by auto
  then have "trim (toLowerCase q) \<noteq> []" using queryWords_Nil by auto
  with assms show ?thesis
    by (auto simp add: intentFilter_def Let_def keepItem_def matchesAllWords_iff
        matchesAiKeyword_def matchesAiTopic_def list_ex_iff)
qed

theorem intent_fallback_match_witness:
  "item1 \<in> set [item1, item2] \<and>
   queryWords (trim (toLowerCase (js ''money tips''))) = [js ''money'', js ''tips''] \<and>
   \<not> includes_str (searchableText item1) (js ''money'') \<and>
   includes_str (toLowerCase (normalizeTopic (SavedItem.topic item1))) (toLowerCase (js ''Finance'')) \<and>
   item1 \<in> set (intentFilter (js ''money tips'') (Some tradingIntent) [item1, item2])"
proof -
  have h1: "item1 \<in> set [item1, item2]" by simp
  have w: "queryWords (trim (toLowerCase (js ''money tips''))) = [js ''money'', js ''tips'']"
    by code_simp
  have n: "\<not> includes_str (searchableText item1) (js ''money'')" by code_simp
  have h2: "\<not> (\<forall>w \<in> set (queryWords (trim (toLowerCase (js ''money tips'')))).
      includes_str (searchableText item1) w)"
    using n by (simp add: w)
  have t: "js ''Finance'' \<in> set (topics tradingIntent)" by code_simp
  have m: "includes_str (toLowerCase (normalizeTopic (SavedItem.topic item1)))
      (toLowerCase (js ''Finance''))"
    by code_simp
  have "item1 \<in> set (intentFilter (js ''money tips'') (Some tradingIntent) [item1, item2])"
    using intent_fallback_match [OF h1 h2, of tradingIntent] t m by blast
  with h1 w n m show ?thesis by blast
qed

text \<open>
  The claim as stated normalizes the intent topic before looking for it in the
  normalized topic of the item. The item \<open>fussball\<close> fails the all-words match for the
  query \<open>soccer\<close> and is kept, because the intent topic, lower-cased, occurs in its
  lower-cased normalized topic. The normalized intent topic starts with \<open>SS\<close>: it
  neither occurs in the normalized topic of the item nor equals it, with or without
  lower-casing, and the intent has no keyword.
\<close>

theorem intent_fallback_counterexample:
  "\<not> matchesAllWords (queryWords (trim (toLowerCase (js ''soccer'')))) fussball \<and>
   intentFilter (js ''soccer'') (Some ballIntent) [fussball] = [fussball] \<and>
   \<not> claimedIntentMatch ballIntent fussball \<and>
   list_all (\<lambda>t. \<not> includes_str (normalizeTopic (SavedItem.topic fussball)) (normalizeTopic t) \<and>
                 normalizeTopic t \<noteq> normalizeTopic (SavedItem.topic fussball)) (topics ballIntent)"
  by code_simp

subsection \<open>Failure of the intent extraction\<close>

lemma sublist_transitive: "sublist xs ys \<Longrightarrow> sublist ys zs \<Longrightarrow> sublist xs zs"
  unfolding sublist_def by (metis append.assoc)

text \<open>Every piece of a split occurs in the string, the first one at its start.\<close>

lemma split_ws_pieces:
  "split_ws s \<noteq> [] \<and> prefix (hd (split_ws s)) s \<and> (\<forall>w \<in> set (split_ws s). sublist w s)"
proof (induction s rule: split_ws.induct)
  case 1
  then show ?case by simp
next
  case (2 c cs)
  show ?case
  proof (cases "isWhiteSpace c")
    case True
    have "sublist w (c # cs)" if "sublist w (dropWhile isWhiteSpace cs)" for w
    proof -
      have "suffix (dropWhile isWhiteSpace cs) (c # cs)"
        by (simp add: suffix_dropWhile suffix_ConsI)
      then have "sublist (dropWhile isWhiteSpace cs) (c # cs)" by (rule suffix_imp_sublist)
      with that show ?thesis by (rule sublist_transitive)
    qed
    with True 2 show ?thesis by auto
  next
    case False
    with 2 obtain w0 ws where sp: "split_ws cs = w0 # ws" and p: "prefix w0 cs"
      and sub: "\<forall>w \<in> set (w0 # ws). sublist w cs"
      by (cases "split_ws cs") auto
    have "sublist w (c # cs)" if "sublist w cs" for w
      using that by (simp add: sublist_Cons_right)
    with False sp p sub show ?thesis by auto
  qed
qed

lemma queryWords_included: "w \<in> set (queryWords q) \<Longrightarrow> includes_str q w"
  using split_ws_pieces [of q] by (simp add: queryWords_def includes_str_def)

lemma includes_str_trans: "includes_str a b \<Longrightarrow> includes_str b c \<Longrightarrow> includes_str a c"
  unfolding includes_str_def by (rule sublist_transitive)

text \<open>
  The one keyword of the fallback intent is the whole query: where it occurs, every word
  of the query occurs, so it never keeps an item that the all-words match drops.
\<close>

lemma keepItem_fallbackIntent:
  "keepItem (queryWords (trim (toLowerCase q))) (Some (fallbackIntent (trim q))) item
     = keepItem (queryWords (trim (toLowerCase q))) None item"
proof (cases "matchesAllWords (queryWords (trim (toLowerCase q))) item")
  case True
  then show ?thesis by (simp add: keepItem_def)
next
  case False
  have "\<not> includes_str (searchableText item) (trim (toLowerCase q))"
  proof
    assume "includes_str (searchableText item) (trim (toLowerCase q))"
    then have "matchesAllWords (queryWords (trim (toLowerCase q))) item"
      by (auto simp add: matchesAllWords_iff intro: includes_str_trans queryWords_included)
    with False show False by simp
  qed
  with False show ?thesis
    by (simp add: keepItem_def fallbackIntent_def matchesAiKeyword_def matchesAiTopic_def
        toLowerCase_trim)
qed

lemma filteredItems_fallbackIntent:
  "filteredItems items q af (Some (fallbackIntent (trim q))) = filteredItems items q af None"
proof -
  have "keepItem (queryWords (trim (toLowerCase q))) (Some (fallbackIntent (trim q)))
      = keepItem (queryWords (trim (toLowerCase q))) None"
    by (rule ext) (rule keepItem_fallbackIntent)
  then have "intentFilter q (Some (fallbackIntent (trim q))) xs = intentFilter q None xs" for xs
    by (simp add: intentFilter_def Let_def)
  then show ?thesis
    by (simp add: filteredItems_def sortModeOf_def contentLimit_def fallbackIntent_def)
qed

text \<open>
  Claim C8, as amended. When the extraction request itself fails, the orchestrator sets
  the intent to absent. When the reply cannot be parsed, \<open>getSearchIntent\<close> does not
  fail: it returns the intent whose one keyword is the trimmed query, with no topics,
  sort mode or limit, and the orchestrator stores that intent (for a trimmed query
  longer than three code units; a shorter query clears the intent). In both cases no
  error surfaces, and the filter and ranking stages give, for that query, the result
  they give with no intent.
\<close>

theorem intent_extraction_failure:
  "intentEffect Request_fails q = None \<and>
   intentEffect Text_unparsable q =
     (if length (trim q) > 3 then Some (fallbackIntent (trim q)) else None) \<and>
   filteredItems items q af (intentEffect Request_fails q) = filteredItems items q af None \<and>
   filteredItems items q af (intentEffect Text_unparsable q) = filteredItems items q af None"
  by (simp add: intentEffect_def getSearchIntent_def Let_def filteredItems_fallbackIntent
      fallbackIntent_def [symmetric])

theorem intent_extraction_failure_witness:
  "intentEffect Request_fails (js ''trading'') = None \<and>
   intentEffect Text_unparsable (js ''trading'') = Some (fallbackIntent (js ''trading'')) \<and>
   filteredItems [item1, item2] (js ''trading'') (js ''all'') None = [item1] \<and>
   filteredItems [item1, item2] (js ''trading'') (js ''all'')
     (intentEffect Text_unparsable (js ''trading'')) = [item1]"
proof -
  have l: "length (trim (js ''trading'')) > 3" and t: "trim (js ''trading'') = js ''trading''"
    by code_simp+
  have e: "filteredItems [item1, item2] (js ''trading'') (js ''all'') None = [item1]"
    by code_simp
  note th = intent_extraction_failure [of "js ''trading''" "[item1, item2]" "js ''all''"]
  from th have 1: "intentEffect Request_fails (js ''trading'') = None" by blast
  from th l have 2: "intentEffect Text_unparsable (js ''trading'')
      = Some (fallbackIntent (js ''trading''))"
    by (simp only: t if_True)
  from th have "filteredItems [item1, item2] (js ''trading'') (js ''all'')
     (intentEffect Text_unparsable (js ''trading''))
      = filteredItems [item1, item2] (js ''trading'') (js ''all'') None"
    by blast
  then have 3: "filteredItems [item1, item2] (js ''trading'') (js ''all'')
     (intentEffect Text_unparsable (js ''trading'')) = [item1]"
    by (simp only: e)
  from 1 2 e 3 show ?thesis by blast
qed

text \<open>
  The claim as stated has every extraction failure end in an absent intent. A reply
  that cannot be parsed ends in a present one.
\<close>

theorem intent_extraction_failure_counterexample:
  "intentEffect Text_unparsable (js ''last finance reel '')
     = Some (fallbackIntent (js ''last finance reel'')) \<and>
   intentEffect Text_unparsable (js ''last finance reel '') \<noteq> None"
  by code_simp

subsection \<open>The end-to-end scenarios of the specification\<close>

text \<open>
  Scenario 2: the query \<open>most liked recipes\<close> with an intent that sorts by engagement
  and names the topic \<open>Food\<close> yields the second item only. Scenario 3: the query
  \<open>last finance reel\<close> with an intent that sorts by save order, limits to one and
  names the topic \<open>Finance\<close> yields the first item only. Scenario 4: with no query, no
  category and no intent, items dated 100, 300 and 200 come out newest first.
  (Scenarios 1 and 5 are the witnesses of the category filter and of the ranking by
  engagement.)
\<close>

lemma scenario_2:
  "filteredItems [item1, item2] (js ''most liked recipes'') (js ''all'') (Some mostLikedIntent)
     = [item2]"
  by code_simp

lemma scenario_3:
  "filteredItems [item1, item2] (js ''last finance reel'') (js ''all'') (Some lastFinanceIntent)
     = [item1]"
  by code_simp

lemma scenario_4:
  "filteredItems [item1, item3, item2] [] (js ''all'') None = [item3, item2, item1]"
  by code_simp

end
